theory Spec2Isabelle
  imports Complex_Main "HOL-Library.AList"
begin

section \<open>Python values\<close>

text \<open>
  The model follows \<^verbatim>\<open>ekonlpy/sentiment/base.py\<close> (class \<^verbatim>\<open>BaseDict\<close>) and
  \<^verbatim>\<open>ekonlpy/sentiment/mpko.py\<close> (class \<^verbatim>\<open>MPKO\<close>).

  \<^item> A Python \<^verbatim>\<open>str\<close> is a \<open>string\<close>; one \<open>char\<close> stands for one code point, so the
    model covers text whose code points are below 256 and \<open>length\<close> is Python's \<^verbatim>\<open>len\<close>.
  \<^item> A Python \<^verbatim>\<open>dict\<close> is an association list in insertion order with distinct keys:
    \<^verbatim>\<open>d[k] = v\<close> is \<open>AList.update k v d\<close>, \<^verbatim>\<open>k in d.keys()\<close> is
    \<open>k \<in> set (map fst d)\<close>, \<^verbatim>\<open>len(d)\<close> is \<open>length d\<close>.
  \<^item> A Python \<^verbatim>\<open>float\<close> is the real number it denotes and arithmetic is exact: rounding,
    infinities and NaN are not modelled. The integers \<^verbatim>\<open>1\<close>, \<^verbatim>\<open>-1\<close>, \<^verbatim>\<open>0\<close> that
    \<^verbatim>\<open>_get_score\<close> returns are embedded in the reals.
  \<^item> An exception is a value of \<open>error\<close>; a function that may raise returns \<open>error + 'a\<close>.
    Assertions are enabled (no \<^verbatim>\<open>-O\<close>).
\<close>

datatype error =
    FileNotFoundError
  | IndexError
  | ValueError
  | AssertionError
  | TokenizerError string

type_synonym 'v dict = "(string \<times> 'v) list"

text \<open>\<^verbatim>\<open>line.split(',')\<close>: the fields between the separators; never the empty list.\<close>

fun str_split :: "char \<Rightarrow> string \<Rightarrow> string list" where
  "str_split sep [] = [[]]"
| "str_split sep (c # cs) =
     (if c = sep then [] # str_split sep cs
      else (case str_split sep cs of
              [] \<Rightarrow> [[c]]
            | field # rest \<Rightarrow> (c # field) # rest))"

text \<open>\<^verbatim>\<open>str.isspace\<close> on the code points below 256, and \<^verbatim>\<open>str.strip()\<close>.\<close>

definition is_space :: "char \<Rightarrow> bool" where
  "is_space c \<longleftrightarrow> (of_char c :: nat) \<in> set [9, 10, 11, 12, 13, 28, 29, 30, 31, 32, 133, 160]"

definition strip :: "string \<Rightarrow> string" where
  "strip s = rev (dropWhile is_space (rev (dropWhile is_space s)))"

text \<open>\<^verbatim>\<open>os.path.join\<close> of \<^verbatim>\<open>posixpath\<close>.\<close>

definition path_join2 :: "string \<Rightarrow> string \<Rightarrow> string" where
  "path_join2 path b =
     (if b \<noteq> [] \<and> hd b = CHR ''/'' then b
      else if path = [] \<or> last path = CHR ''/'' then path @ b
      else path @ ''/'' @ b)"

definition path_join :: "string \<Rightarrow> string list \<Rightarrow> string" where
  "path_join a p = foldl path_join2 a p"

section \<open>The dictionary object\<close>

text \<open>
  The fields of a \<^verbatim>\<open>BaseDict\<close> instance. \<open>tokenizer\<close> is \<open>None\<close> until
  \<^verbatim>\<open>self._tokenizer\<close> is assigned.
\<close>

record 'tok base_dict =
  posdict :: "int dict"
  negdict :: "int dict"
  poldict :: "real dict"
  tokenizer :: "'tok option"

definition EPSILON :: real where
  "EPSILON = 1 / 1000000"

text \<open>\<^verbatim>\<open>LEXICON_PATH = '%s/data/lexicon' % installpath\<close>; \<^verbatim>\<open>installpath\<close> comes from
  \<^verbatim>\<open>ekonlpy.utils\<close> and is a parameter.\<close>

definition LEXICON_PATH :: "string \<Rightarrow> string" where
  "LEXICON_PATH installpath = installpath @ ''/data/lexicon''"

definition KINDS :: "(int \<times> string) list" where
  "KINDS = [(0, ''mp_polarity_lexicon_mkt.csv''),
            (1, ''mp_polarity_lexicon_lex.csv''),
            (3, ''mp_uncertainty_lexicon.csv'')]"

section \<open>\<^verbatim>\<open>MPKO.init_dict\<close>\<close>

text \<open>
  The body of the loop \<^verbatim>\<open>for line in f\<close>. \<open>fl\<close> is Python's \<^verbatim>\<open>float\<close> on strings
  (\<open>None\<close> where it raises \<^verbatim>\<open>ValueError\<close>). \<^verbatim>\<open>word[1]\<close> and \<^verbatim>\<open>word[2]\<close> raise
  \<^verbatim>\<open>IndexError\<close> on a line with too few fields. Both numbers are parsed before the length of
  \<open>w\<close> is looked at.
\<close>

definition load_line ::
  "(string \<Rightarrow> real option) \<Rightarrow> 'tok base_dict \<Rightarrow> string \<Rightarrow> error + 'tok base_dict" where
  "load_line fl self line =
     (let word = str_split CHR '','' line;
          w = hd word
      in if w = ''word'' then Inr self
         else if length word \<le> 1 then Inl IndexError
         else (case fl (strip (word ! 1)) of
           None \<Rightarrow> Inl ValueError
         | Some p \<Rightarrow>
             if length word \<le> 2 then Inl IndexError
             else (case fl (strip (word ! 2)) of
               None \<Rightarrow> Inl ValueError
             | Some s \<Rightarrow>
                 if length w > 1 then
                   (let self1 = self\<lparr>poldict := AList.update w s (poldict self)\<rparr>
                    in if p > 0 then Inr (self1\<lparr>posdict := AList.update w 1 (posdict self1)\<rparr>)
                       else if p < 0 then
                         Inr (self1\<lparr>negdict := AList.update w (- 1) (negdict self1)\<rparr>)
                       else Inr self1)
                 else Inr self)))"

text \<open>The loop over the lines of the file; the first exception ends it.\<close>

fun load_lines ::
  "(string \<Rightarrow> real option) \<Rightarrow> 'tok base_dict \<Rightarrow> string list \<Rightarrow> error + 'tok base_dict" where
  "load_lines fl self [] = Inr self"
| "load_lines fl self (line # f) =
     (case load_line fl self line of
        Inl e \<Rightarrow> Inl e
      | Inr self1 \<Rightarrow> load_lines fl self1 f)"

text \<open>
  \<^verbatim>\<open>kind if kind in self.KINDS.keys() else 0\<close>, with \<open>None\<close> for Python's \<^verbatim>\<open>None\<close>, and the
  path of the lexicon file.
\<close>

definition select_kind :: "int option \<Rightarrow> int" where
  "select_kind kind =
     (case kind of
        None \<Rightarrow> 0
      | Some k \<Rightarrow> if k \<in> set (map fst KINDS) then k else 0)"

definition lexicon_file :: "string \<Rightarrow> int option \<Rightarrow> string" where
  "lexicon_file installpath kind =
     path_join (LEXICON_PATH installpath) [''mpko'', the (map_of KINDS (select_kind kind))]"

text \<open>
  \<open>files\<close> is the file system: the lines that iterating over the opened file yields, each
  with its line end, or \<open>None\<close> where \<^verbatim>\<open>open\<close> raises \<^verbatim>\<open>FileNotFoundError\<close>.
\<close>

definition init_dict ::
  "(string \<Rightarrow> real option) \<Rightarrow> string \<Rightarrow> (string \<Rightarrow> string list option) \<Rightarrow>
   'tok base_dict \<Rightarrow> int option \<Rightarrow> error + 'tok base_dict" where
  "init_dict fl installpath files self kind =
     (case files (lexicon_file installpath kind) of
        None \<Rightarrow> Inl FileNotFoundError
      | Some f \<Rightarrow> load_lines fl self f)"

section \<open>\<^verbatim>\<open>BaseDict.__init__\<close> for \<^verbatim>\<open>MPKO\<close>\<close>

text \<open>
  \<^verbatim>\<open>MPTokenizer\<close> is not part of the sources: its constructor is a parameter that reads
  \<^verbatim>\<open>kind\<close> and \<^verbatim>\<open>self._poldict\<close> and returns a tokenizer or raises.
\<close>

definition init_tokenizer ::
  "(int option \<Rightarrow> real dict \<Rightarrow> error + 'tok) \<Rightarrow> 'tok base_dict \<Rightarrow> int option \<Rightarrow>
   error + 'tok base_dict" where
  "init_tokenizer MPTokenizer self kind =
     (case MPTokenizer kind (poldict self) of
        Inl e \<Rightarrow> Inl e
      | Inr t \<Rightarrow> Inr (self\<lparr>tokenizer := Some t\<rparr>))"

definition new_self :: "'tok base_dict" where
  "new_self = \<lparr>posdict = [], negdict = [], poldict = [], tokenizer = None\<rparr>"

definition MPKO_init ::
  "(string \<Rightarrow> real option) \<Rightarrow> string \<Rightarrow> (string \<Rightarrow> string list option) \<Rightarrow>
   (int option \<Rightarrow> real dict \<Rightarrow> error + 'tok) \<Rightarrow> 'tok option \<Rightarrow> int option \<Rightarrow>
   error + 'tok base_dict" where
  "MPKO_init fl installpath files MPTokenizer tokenizer_arg kind =
     (case init_dict fl installpath files new_self kind of
        Inl e \<Rightarrow> Inl e
      | Inr self1 \<Rightarrow>
          (case (case tokenizer_arg of
                   None \<Rightarrow> init_tokenizer MPTokenizer self1 kind
                 | Some t \<Rightarrow> Inr (self1\<lparr>tokenizer := Some t\<rparr>)) of
             Inl e \<Rightarrow> Inl e
           | Inr self2 \<Rightarrow>
               if length (posdict self2) > 0 \<and> length (negdict self2) > 0 then Inr self2
               else Inl AssertionError))"

section \<open>Scoring\<close>

text \<open>\<^verbatim>\<open>BaseDict._get_score\<close>.\<close>

definition get_score_term :: "'tok base_dict \<Rightarrow> string \<Rightarrow> bool \<Rightarrow> real" where
  "get_score_term self t by_count =
     (if by_count then
        (if t \<in> set (map fst (posdict self)) then real_of_int (the (map_of (posdict self) t))
         else if t \<in> set (map fst (negdict self)) then real_of_int (the (map_of (negdict self) t))
         else 0)
      else
        (if t \<in> set (map fst (poldict self)) then the (map_of (poldict self) t)
         else 0))"

text \<open>
  The argument \<^verbatim>\<open>terms\<close> of \<^verbatim>\<open>get_score\<close>: a list, a tuple, or any other object, on which
  the \<^verbatim>\<open>isinstance\<close> assertion fails.
\<close>

datatype terms_arg = PyList "string list" | PyTuple "string list" | PyOther

fun items :: "terms_arg \<Rightarrow> string list option" where
  "items (PyList ts) = Some ts"
| "items (PyTuple ts) = Some ts"
| "items PyOther = None"

record score =
  Positive :: real
  Negative :: real
  Polarity :: real
  Subjectivity :: real

text \<open>\<^verbatim>\<open>BaseDict.get_score\<close>.\<close>

definition get_score :: "'tok base_dict \<Rightarrow> terms_arg \<Rightarrow> bool \<Rightarrow> error + score" where
  "get_score self terms by_count =
     (case items terms of
        None \<Rightarrow> Inl AssertionError
      | Some ts \<Rightarrow>
          (let score_li = map (\<lambda>t. get_score_term self t by_count) ts;
               pos_score_li = filter (\<lambda>s. s > 0) score_li;
               neg_score_li = filter (\<lambda>s. s < 0) score_li;
               s_pos = sum_list pos_score_li;
               s_neg = sum_list neg_score_li;
               s_pol = (s_pos + s_neg) * 1 /
                       ((if by_count then s_pos - s_neg else real (length score_li)) + EPSILON);
               s_sub = real (length pos_score_li + length neg_score_li) * 1 /
                       (real (length score_li) + EPSILON)
           in Inr \<lparr>Positive = s_pos, Negative = s_neg,
                   Polarity = s_pol, Subjectivity = s_sub\<rparr>))"

section \<open>Records of the lexicon file\<close>

text \<open>
  Names for what the loop body reads from one line: its fields, the word, the two parsed
  numbers, the test that the line passes both filters, and the assignments made for it.
\<close>

definition line_fields :: "string \<Rightarrow> string list" where
  "line_fields line = str_split CHR '','' line"

definition line_word :: "string \<Rightarrow> string" where
  "line_word line = hd (line_fields line)"

definition line_class :: "(string \<Rightarrow> real option) \<Rightarrow> string \<Rightarrow> real option" where
  "line_class fl line = fl (strip (line_fields line ! 1))"

definition line_score :: "(string \<Rightarrow> real option) \<Rightarrow> string \<Rightarrow> real option" where
  "line_score fl line = fl (strip (line_fields line ! 2))"

definition is_header :: "string \<Rightarrow> bool" where
  "is_header line \<longleftrightarrow> line_word line = ''word''"

definition retained :: "string \<Rightarrow> bool" where
  "retained line \<longleftrightarrow> \<not> is_header line \<and> length (line_word line) > 1"

definition store :: "string \<Rightarrow> real \<Rightarrow> real \<Rightarrow> 'tok base_dict \<Rightarrow> 'tok base_dict" where
  "store w p s self =
     (let self1 = self\<lparr>poldict := AList.update w s (poldict self)\<rparr>
      in if p > 0 then self1\<lparr>posdict := AList.update w 1 (posdict self1)\<rparr>
         else if p < 0 then self1\<lparr>negdict := AList.update w (- 1) (negdict self1)\<rparr>
         else self1)"

text \<open>The last line of the file whose word is \<open>w\<close>.\<close>

definition last_record :: "string \<Rightarrow> string list \<Rightarrow> string option" where
  "last_record w f = find (\<lambda>l. line_word l = w) (rev f)"

text \<open>A malformed numeric field: a field that is there and that \<^verbatim>\<open>float\<close> rejects.\<close>

definition malformed :: "(string \<Rightarrow> real option) \<Rightarrow> string \<Rightarrow> bool" where
  "malformed fl line \<longleftrightarrow>
     (length (line_fields line) \<ge> 2 \<and> line_class fl line = None) \<or>
     (length (line_fields line) \<ge> 3 \<and> line_score fl line = None)"

text \<open>
  A word has conflicting records in a file when one retained record of it has a positive
  class and another a negative class.
\<close>

definition pos_record :: "(string \<Rightarrow> real option) \<Rightarrow> string \<Rightarrow> string \<Rightarrow> bool" where
  "pos_record fl w line \<longleftrightarrow>
     line_word line = w \<and> retained line \<and>
     (case line_class fl line of None \<Rightarrow> False | Some p \<Rightarrow> p > 0)"

definition neg_record :: "(string \<Rightarrow> real option) \<Rightarrow> string \<Rightarrow> string \<Rightarrow> bool" where
  "neg_record fl w line \<longleftrightarrow>
     line_word line = w \<and> retained line \<and>
     (case line_class fl line of None \<Rightarrow> False | Some p \<Rightarrow> p < 0)"

definition conflicting :: "(string \<Rightarrow> real option) \<Rightarrow> string list \<Rightarrow> string \<Rightarrow> bool" where
  "conflicting fl f w \<longleftrightarrow> list_ex (pos_record fl w) f \<and> list_ex (neg_record fl w) f"

section \<open>The scores as the specification words them\<close>

text \<open>
  Positive is the sum of the strictly positive per-token scores, Negative the sum of the
  strictly negative ones, Polarity is (Positive + Negative) / (D + 1e-6), where D is
  Positive - Negative in by_count mode and the number of tokens in by_polarity mode, and
  Subjectivity is the number of tokens with a nonzero score over the number of tokens plus
  1e-6.
\<close>

definition spec_score :: "'tok base_dict \<Rightarrow> string list \<Rightarrow> bool \<Rightarrow> score" where
  "spec_score self ts by_count =
     (let scores = map (\<lambda>t. get_score_term self t by_count) ts;
          P = sum_list (map (\<lambda>s. if 0 < s then s else 0) scores);
          N = sum_list (map (\<lambda>s. if s < 0 then s else 0) scores);
          D = (if by_count then P - N else real (length ts))
      in \<lparr>Positive = P, Negative = N,
          Polarity = (P + N) / (D + 1 / 1000000),
          Subjectivity =
            real (length (filter (\<lambda>s. s \<noteq> 0) scores)) / (real (length ts) + 1 / 1000000)\<rparr>)"

section \<open>Sample inputs\<close>

text \<open>
  The values of Python's \<^verbatim>\<open>float\<close> on the numeric fields of the sample lexicons below;
  \<^verbatim>\<open>float('abc')\<close> raises \<^verbatim>\<open>ValueError\<close>. The table is used on these strings only.
\<close>

definition float_sample :: "string \<Rightarrow> real option" where
  "float_sample s =
     (if s = ''1'' then Some 1
      else if s = ''-1'' then Some (- 1)
      else if s = ''0'' then Some 0
      else if s = ''0.5'' then Some (1 / 2)
      else if s = ''-0.25'' then Some (- (1 / 4))
      else if s = ''5'' then Some 5
      else None)"

definition sample_path :: string where
  "sample_path = ''/opt/ekonlpy/data/lexicon/mpko/mp_polarity_lexicon_mkt.csv''"

definition files_with :: "string list \<Rightarrow> string \<Rightarrow> string list option" where
  "files_with f path = (if path = sample_path then Some f else None)"

definition sample_lexicon :: "string list" where
  "sample_lexicon =
     [''word,polarity,score\<newline>'', ''hike,1,0.5\<newline>'', ''cut,-1,-0.25\<newline>'',
      ''hold, 0 ,0\<newline>'', ''x,1,0.5\<newline>'']"

definition sample_dict :: "unit base_dict" where
  "sample_dict =
     \<lparr>posdict = [(''hike'', 1)], negdict = [(''cut'', - 1)],
      poldict = [(''hike'', 1 / 2), (''cut'', - (1 / 4)), (''hold'', 0)], tokenizer = Some ()\<rparr>"

definition conflict_lexicon :: "string list" where
  "conflict_lexicon = [''word,polarity,score'', ''ab,1,0.5'', ''ab,-1,0.5'']"

definition conflict_dict :: "unit base_dict" where
  "conflict_dict =
     \<lparr>posdict = [(''ab'', 1)], negdict = [(''ab'', - 1)], poldict = [(''ab'', 1 / 2)],
      tokenizer = Some ()\<rparr>"

definition steep_lexicon :: "string list" where
  "steep_lexicon = [''word,polarity,score\<newline>'', ''up,1,5\<newline>'', ''cut,-1,-0.25\<newline>'']"

definition steep_dict :: "unit base_dict" where
  "steep_dict =
     \<lparr>posdict = [(''up'', 1)], negdict = [(''cut'', - 1)],
      poldict = [(''up'', 5), (''cut'', - (1 / 4))], tokenizer = Some ()\<rparr>"

definition no_tokenizer :: "int option \<Rightarrow> real dict \<Rightarrow> error + unit" where
  "no_tokenizer kind d = Inr ()"

section \<open>Properties of the loader\<close>

lemma str_split_nonempty: "str_split sep s \<noteq> []"
  by (induction s) (auto split: list.splits)

lemma load_line_unfold:
  "load_line fl self line =
     (if is_header line then Inr self
      else if length (line_fields line) \<le> 1 then Inl IndexError
      else (case line_class fl line of
              None \<Rightarrow> Inl ValueError
            | Some p \<Rightarrow>
                if length (line_fields line) \<le> 2 then Inl IndexError
                else (case line_score fl line of
                        None \<Rightarrow> Inl ValueError
                      | Some s \<Rightarrow>
                          if length (line_word line) > 1 then Inr (store (line_word line) p s self)
                          else Inr self)))"
  by (simp add: load_line_def is_header_def line_fields_def line_class_def line_score_def line_word_def
      store_def Let_def split: option.splits)

lemma load_line_Inr:
  assumes "load_line fl self line = Inr self'"
  shows "(\<not> retained line \<and> self' = self) \<or>
         (retained line \<and> (\<exists>p s. line_class fl line = Some p \<and> line_score fl line = Some s \<and>
            self' = store (line_word line) p s self))"
  using assms unfolding load_line_unfold retained_def
  by (auto split: if_splits option.splits)

lemma load_lines_append:
  "load_lines fl self (xs @ ys) =
     (case load_lines fl self xs of Inl e \<Rightarrow> Inl e | Inr self1 \<Rightarrow> load_lines fl self1 ys)"
  by (induction xs arbitrary: self) (auto split: sum.splits)

lemma keys_pol_store: "fst ` set (poldict (store w p s self)) = insert w (fst ` set (poldict self))"
  by (simp add: store_def Let_def AList.dom_update)

lemma keys_pos_store:
  "fst ` set (posdict (store w p s self)) =
     (if p > 0 then insert w (fst ` set (posdict self)) else fst ` set (posdict self))"
  by (simp add: store_def Let_def AList.dom_update)

lemma keys_neg_store:
  "fst ` set (negdict (store w p s self)) =
     (if p < 0 then insert w (fst ` set (negdict self)) else fst ` set (negdict self))"
  by (simp add: store_def Let_def AList.dom_update)

lemma map_of_pol_store:
  "map_of (poldict (store w p s self)) = (map_of (poldict self))(w \<mapsto> s)"
  by (simp add: store_def Let_def AList.update_conv')

lemma find_snoc:
  "find P (xs @ [x]) = (case find P xs of Some y \<Rightarrow> Some y | None \<Rightarrow> if P x then Some x else None)"
  by (induction xs) auto

lemma load_lines_poldict:
  "load_lines fl self f = Inr d \<Longrightarrow>
   map_of (poldict d) w =
     (case find (\<lambda>l. retained l \<and> line_word l = w) (rev f) of
        Some l \<Rightarrow> line_score fl l
      | None \<Rightarrow> map_of (poldict self) w)"
proof (induction f arbitrary: self)
  case Nil
  then show ?case by simp
next
  case (Cons line f)
  from Cons.prems obtain self1 where
    step: "load_line fl self line = Inr self1" and rest: "load_lines fl self1 f = Inr d"
    by (auto split: sum.splits)
  note ih = Cons.IH [OF rest]
  show ?case
  proof (cases "find (\<lambda>l. retained l \<and> line_word l = w) (rev f)")
    case (Some l)
    with ih show ?thesis by (simp add: find_snoc)
  next
    case None
    with ih have eq: "map_of (poldict d) w = map_of (poldict self1) w" by simp
    from load_line_Inr [OF step] show ?thesis
      using None eq by (auto simp: find_snoc map_of_pol_store)
  qed
qed

lemma load_lines_invariant:
  assumes "load_lines fl self f = Inr d" and "I self"
    and step: "\<And>x l p s. I x \<Longrightarrow> l \<in> set f \<Longrightarrow> retained l \<Longrightarrow> line_class fl l = Some p \<Longrightarrow>
                 line_score fl l = Some s \<Longrightarrow> I (store (line_word l) p s x)"
  shows "I d"
  using assms
proof (induction f arbitrary: self)
  case Nil
  then show ?case by simp
next
  case (Cons line f)
  from Cons.prems(1) obtain self1 where
    one: "load_line fl self line = Inr self1" and rest: "load_lines fl self1 f = Inr d"
    by (auto split: sum.splits)
  from load_line_Inr [OF one] Cons.prems(2) Cons.prems(3) [of self line]
  have "I self1" by auto
  with rest show ?case
    by (rule Cons.IH) (simp add: Cons.prems(3))
qed

lemma map_of_pos_store:
  "map_of (posdict (store w p s self)) =
     (if p > 0 then (map_of (posdict self))(w \<mapsto> 1) else map_of (posdict self))"
  by (simp add: store_def Let_def AList.update_conv')

lemma map_of_neg_store:
  "map_of (negdict (store w p s self)) =
     (if p < 0 then (map_of (negdict self))(w \<mapsto> - 1) else map_of (negdict self))"
  by (simp add: store_def Let_def AList.update_conv')

lemma tokenizer_store: "tokenizer (store w p s self) = tokenizer self"
  by (simp add: store_def Let_def)

lemma load_lines_pos_values:
  assumes "load_lines fl self f = Inr d"
    and "\<forall>k v. map_of (posdict self) k = Some v \<longrightarrow> v = 1"
  shows "\<forall>k v. map_of (posdict d) k = Some v \<longrightarrow> v = 1"
  using assms(1,2)
  by (rule load_lines_invariant) (simp add: map_of_pos_store)

lemma load_lines_neg_values:
  assumes "load_lines fl self f = Inr d"
    and "\<forall>k v. map_of (negdict self) k = Some v \<longrightarrow> v = - 1"
  shows "\<forall>k v. map_of (negdict d) k = Some v \<longrightarrow> v = - 1"
  using assms(1,2)
  by (rule load_lines_invariant) (simp add: map_of_neg_store)

lemma load_lines_keys_retained:
  assumes "load_lines fl self f = Inr d"
    and "\<forall>k \<in> fst ` set (posdict self) \<union> fst ` set (negdict self) \<union> fst ` set (poldict self).
           k \<noteq> ''word'' \<and> length k > 1"
  shows "\<forall>k \<in> fst ` set (posdict d) \<union> fst ` set (negdict d) \<union> fst ` set (poldict d).
           k \<noteq> ''word'' \<and> length k > 1"
  using assms(1,2)
  by (rule load_lines_invariant)
     (auto simp: keys_pos_store keys_neg_store keys_pol_store retained_def is_header_def
           split: if_splits)

lemma load_lines_keys_pos:
  "load_lines fl self f = Inr d \<Longrightarrow>
   w \<in> fst ` set (posdict d) \<longleftrightarrow>
     w \<in> fst ` set (posdict self) \<or>
     (\<exists>l \<in> set f. line_word l = w \<and> retained l \<and> (\<exists>p. line_class fl l = Some p \<and> p > 0))"
proof (induction f arbitrary: self)
  case Nil
  then show ?case by simp
next
  case (Cons line f)
  from Cons.prems obtain self1 where
    one: "load_line fl self line = Inr self1" and rest: "load_lines fl self1 f = Inr d"
    by (auto split: sum.splits)
  define K :: "'a base_dict \<Rightarrow> string set" where "K x = fst ` set (posdict x)" for x
  have K_store: "K (store v p s x) = (if p > 0 then insert v (K x) else K x)" for v p s x
    by (simp add: K_def keys_pos_store)
  from load_line_Inr [OF one]
  have "w \<in> K self1 \<longleftrightarrow>
          w \<in> K self \<or> (line_word line = w \<and> retained line \<and> (\<exists>p. line_class fl line = Some p \<and> p > 0))"
    by (auto simp: K_store split: if_splits)
  moreover from Cons.IH [OF rest]
  have "w \<in> K d \<longleftrightarrow> w \<in> K self1 \<or> (\<exists>l \<in> set f. line_word l = w \<and> retained l \<and> (\<exists>p. line_class fl l = Some p \<and> p > 0))"
    by (simp add: K_def)
  ultimately have "w \<in> K d \<longleftrightarrow>
      w \<in> K self \<or> (\<exists>l \<in> set (line # f). line_word l = w \<and> retained l \<and> (\<exists>p. line_class fl l = Some p \<and> p > 0))"
    by auto
  then show ?case by (simp add: K_def)
qed

lemma load_lines_keys_neg:
  "load_lines fl self f = Inr d \<Longrightarrow>
   w \<in> fst ` set (negdict d) \<longleftrightarrow>
     w \<in> fst ` set (negdict self) \<or>
     (\<exists>l \<in> set f. line_word l = w \<and> retained l \<and> (\<exists>p. line_class fl l = Some p \<and> p < 0))"
proof (induction f arbitrary: self)
  case Nil
  then show ?case by simp
next
  case (Cons line f)
  from Cons.prems obtain self1 where
    one: "load_line fl self line = Inr self1" and rest: "load_lines fl self1 f = Inr d"
    by (auto split: sum.splits)
  define K :: "'a base_dict \<Rightarrow> string set" where "K x = fst ` set (negdict x)" for x
  have K_store: "K (store v p s x) = (if p < 0 then insert v (K x) else K x)" for v p s x
    by (simp add: K_def keys_neg_store)
  from load_line_Inr [OF one]
  have "w \<in> K self1 \<longleftrightarrow>
          w \<in> K self \<or> (line_word line = w \<and> retained line \<and> (\<exists>p. line_class fl line = Some p \<and> p < 0))"
    by (auto simp: K_store split: if_splits)
  moreover from Cons.IH [OF rest]
  have "w \<in> K d \<longleftrightarrow> w \<in> K self1 \<or> (\<exists>l \<in> set f. line_word l = w \<and> retained l \<and> (\<exists>p. line_class fl l = Some p \<and> p < 0))"
    by (simp add: K_def)
  ultimately have "w \<in> K d \<longleftrightarrow>
      w \<in> K self \<or> (\<exists>l \<in> set (line # f). line_word l = w \<and> retained l \<and> (\<exists>p. line_class fl l = Some p \<and> p < 0))"
    by auto
  then show ?case by (simp add: K_def)
qed

lemma load_lines_keys_pol:
  "load_lines fl self f = Inr d \<Longrightarrow>
   w \<in> fst ` set (poldict d) \<longleftrightarrow>
     w \<in> fst ` set (poldict self) \<or>
     (\<exists>l \<in> set f. line_word l = w \<and> retained l)"
proof (induction f arbitrary: self)
  case Nil
  then show ?case by simp
next
  case (Cons line f)
  from Cons.prems obtain self1 where
    one: "load_line fl self line = Inr self1" and rest: "load_lines fl self1 f = Inr d"
    by (auto split: sum.splits)
  define K :: "'a base_dict \<Rightarrow> string set" where "K x = fst ` set (poldict x)" for x
  have K_store: "K (store v p s x) = insert v (K x)" for v p s x
    by (simp add: K_def keys_pol_store)
  from load_line_Inr [OF one]
  have "w \<in> K self1 \<longleftrightarrow>
          w \<in> K self \<or> (line_word line = w \<and> retained line)"
    by (auto simp: K_store split: if_splits)
  moreover from Cons.IH [OF rest]
  have "w \<in> K d \<longleftrightarrow> w \<in> K self1 \<or> (\<exists>l \<in> set f. line_word l = w \<and> retained l)"
    by (simp add: K_def)
  ultimately have "w \<in> K d \<longleftrightarrow>
      w \<in> K self \<or> (\<exists>l \<in> set (line # f). line_word l = w \<and> retained l)"
    by auto
  then show ?case by (simp add: K_def)
qed

lemma MPKO_init_Inr:
  assumes "MPKO_init fl installpath files MPTokenizer tokenizer_arg kind = Inr self"
  shows "\<exists>f d. files (lexicon_file installpath kind) = Some f \<and>
           load_lines fl new_self f = Inr d \<and>
           self = d\<lparr>tokenizer := tokenizer self\<rparr> \<and>
           posdict self \<noteq> [] \<and> negdict self \<noteq> []"
  using assms
  by (auto simp: MPKO_init_def init_dict_def init_tokenizer_def
           split: sum.splits option.splits if_splits)

lemma MPKO_init_values:
  assumes "MPKO_init fl installpath files MPTokenizer tokenizer_arg kind = Inr self"
  shows "(\<forall>k v. map_of (posdict self) k = Some v \<longrightarrow> v = 1) \<and>
         (\<forall>k v. map_of (negdict self) k = Some v \<longrightarrow> v = - 1)"
proof -
  from MPKO_init_Inr [OF assms] obtain f d where
    l: "load_lines fl new_self f = Inr d" and
    e: "self = d\<lparr>tokenizer := tokenizer self\<rparr>"
    by blast
  have "posdict self = posdict d" "negdict self = negdict d"
    by (subst e, simp)+
  with load_lines_pos_values [OF l] load_lines_neg_values [OF l]
  show ?thesis by (simp add: new_self_def)
qed

lemma key_lookup: "k \<in> set (map fst al) \<Longrightarrow> \<exists>v. map_of al k = Some v"
  by (cases "map_of al k") (auto simp: map_of_eq_None_iff)

section \<open>The sample lexicons, loaded\<close>

lemma sample_lexicon_file: "lexicon_file ''/opt/ekonlpy'' None = sample_path"
  by (simp add: lexicon_file_def select_kind_def KINDS_def
      path_join_def path_join2_def LEXICON_PATH_def sample_path_def)

lemma files_with_sample: "files_with f sample_path = Some f"
  by (simp add: files_with_def)

lemma sample_init_dict:
  "init_dict float_sample ''/opt/ekonlpy'' (files_with f) self None = load_lines float_sample self f"
  by (simp add: init_dict_def sample_lexicon_file files_with_sample)

lemmas line_eval =
  load_line_def float_sample_def strip_def is_space_def Let_def

lemma sample_conflict_load:
  "load_lines float_sample new_self conflict_lexicon = Inr (conflict_dict\<lparr>tokenizer := None\<rparr>)"
  by (simp add: line_eval new_self_def conflict_lexicon_def conflict_dict_def)

lemma sample_conflict_init:
  "MPKO_init float_sample ''/opt/ekonlpy'' (files_with conflict_lexicon) no_tokenizer (Some ()) None =
   Inr conflict_dict"
  unfolding MPKO_init_def sample_init_dict sample_conflict_load
  by (simp add: conflict_dict_def)

lemma sample_load:
  "load_lines float_sample new_self sample_lexicon = Inr (sample_dict\<lparr>tokenizer := None\<rparr>)"
  by (simp add: line_eval new_self_def sample_lexicon_def sample_dict_def)

lemma sample_init:
  "MPKO_init float_sample ''/opt/ekonlpy'' (files_with sample_lexicon) no_tokenizer (Some ()) None =
   Inr sample_dict"
  unfolding MPKO_init_def sample_init_dict sample_load
  by (simp add: sample_dict_def)

section \<open>Scoring one term\<close>

text \<open>
  C10: a term that is a key of both \<^verbatim>\<open>_posdict\<close> and \<^verbatim>\<open>_negdict\<close> gets, in by_count
  mode, the value stored in \<^verbatim>\<open>_posdict\<close>, and that value is \<open>+1\<close> in a constructed
  dictionary: the positive lookup comes first.
\<close>

theorem get_score_term_positive_first:
  assumes "t \<in> set (map fst (posdict self))" and "t \<in> set (map fst (negdict self))"
  shows "get_score_term self t True = real_of_int (the (map_of (posdict self) t)) \<and>
         (MPKO_init fl installpath files MPTokenizer tokenizer_arg kind = Inr self \<longrightarrow>
            get_score_term self t True = 1)"
proof -
  have first: "get_score_term self t True = real_of_int (the (map_of (posdict self) t))"
    using assms(1) by (simp add: get_score_term_def)
  have "get_score_term self t True = 1"
    if built: "MPKO_init fl installpath files MPTokenizer tokenizer_arg kind = Inr self"
  proof -
    from key_lookup [OF assms(1)] obtain v where v: "map_of (posdict self) t = Some v" ..
    with MPKO_init_values [OF built] have "v = 1" by blast
    with first v show ?thesis by simp
  qed
  with first show ?thesis by blast
qed

theorem get_score_term_positive_first_witness:
  "get_score_term conflict_dict ''ab'' True = 1"
proof -
  have "''ab'' \<in> set (map fst (posdict conflict_dict))"
    and "''ab'' \<in> set (map fst (negdict conflict_dict))"
    by (simp_all add: conflict_dict_def)
  from get_score_term_positive_first [OF this] sample_conflict_init
  show ?thesis by blast
qed

text \<open>
  C9: for the empty list and the empty tuple, in either mode, \<^verbatim>\<open>get_score\<close> returns
  Positive = 0, Negative = 0, Polarity = 0 and Subjectivity = 0.
\<close>

theorem get_score_empty:
  "get_score self (PyList []) by_count =
     Inr \<lparr>Positive = 0, Negative = 0, Polarity = 0, Subjectivity = 0\<rparr> \<and>
   get_score self (PyTuple []) by_count =
     Inr \<lparr>Positive = 0, Negative = 0, Polarity = 0, Subjectivity = 0\<rparr>"
  by (simp add: get_score_def)

section \<open>The tables after construction\<close>

lemma MPKO_init_keys:
  assumes built: "MPKO_init fl installpath files MPTokenizer tokenizer_arg kind = Inr self"
    and opened: "files (lexicon_file installpath kind) = Some f"
  shows "w \<in> fst ` set (posdict self) \<longleftrightarrow> list_ex (pos_record fl w) f"
    and "w \<in> fst ` set (negdict self) \<longleftrightarrow> list_ex (neg_record fl w) f"
    and "w \<in> fst ` set (poldict self) \<longleftrightarrow> (\<exists>l \<in> set f. line_word l = w \<and> retained l)"
proof -
  from MPKO_init_Inr [OF built] opened obtain d where
    l: "load_lines fl new_self f = Inr d" and
    e: "self = d\<lparr>tokenizer := tokenizer self\<rparr>"
    by auto
  have eq: "posdict self = posdict d" "negdict self = negdict d" "poldict self = poldict d"
    by (subst e, simp)+
  show "w \<in> fst ` set (posdict self) \<longleftrightarrow> list_ex (pos_record fl w) f"
    unfolding eq load_lines_keys_pos [OF l]
    by (auto simp: new_self_def list_ex_iff pos_record_def split: option.splits)
  show "w \<in> fst ` set (negdict self) \<longleftrightarrow> list_ex (neg_record fl w) f"
    unfolding eq load_lines_keys_neg [OF l]
    by (auto simp: new_self_def list_ex_iff neg_record_def split: option.splits)
  show "w \<in> fst ` set (poldict self) \<longleftrightarrow> (\<exists>l \<in> set f. line_word l = w \<and> retained l)"
    unfolding eq load_lines_keys_pol [OF l]
    by (simp add: new_self_def)
qed

text \<open>
  C4, as the code has it: after construction a term is a key of both \<^verbatim>\<open>_posdict\<close> and
  \<^verbatim>\<open>_negdict\<close> exactly when the lexicon file holds a retained record of that word with a
  positive class and another with a negative class; the two tables are disjoint exactly when
  the file has no such word.
\<close>

theorem tables_overlap_iff_conflicting:
  assumes "MPKO_init fl installpath files MPTokenizer tokenizer_arg kind = Inr self"
    and "files (lexicon_file installpath kind) = Some f"
  shows "((w \<in> set (map fst (posdict self)) \<and> w \<in> set (map fst (negdict self))) \<longleftrightarrow>
            conflicting fl f w) \<and>
         (set (map fst (posdict self)) \<inter> set (map fst (negdict self)) = {} \<longleftrightarrow>
            (\<forall>v. \<not> conflicting fl f v))"
proof -
  have both: "(v \<in> set (map fst (posdict self)) \<and> v \<in> set (map fst (negdict self))) \<longleftrightarrow>
                conflicting fl f v" for v
    using MPKO_init_keys(1,2) [OF assms, of v] by (simp add: conflicting_def)
  have "set (map fst (posdict self)) \<inter> set (map fst (negdict self)) = {} \<longleftrightarrow>
          (\<forall>v. \<not> (v \<in> set (map fst (posdict self)) \<and> v \<in> set (map fst (negdict self))))"
    by blast
  with both show ?thesis by simp
qed

theorem tables_overlap_iff_conflicting_witness:
  "\<not> conflicting float_sample sample_lexicon ''hike'' \<and>
   \<not> (''hike'' \<in> set (map fst (posdict sample_dict)) \<and>
      ''hike'' \<in> set (map fst (negdict sample_dict))) \<and>
   conflicting float_sample conflict_lexicon ''ab'' \<and>
   set (map fst (posdict conflict_dict)) \<inter> set (map fst (negdict conflict_dict)) \<noteq> {}"
proof -
  have f1: "files_with sample_lexicon (lexicon_file ''/opt/ekonlpy'' None) = Some sample_lexicon"
    and f2: "files_with conflict_lexicon (lexicon_file ''/opt/ekonlpy'' None) = Some conflict_lexicon"
    by (simp_all add: sample_lexicon_file files_with_sample)
  have a: "\<not> (''hike'' \<in> set (map fst (posdict sample_dict)) \<and>
              ''hike'' \<in> set (map fst (negdict sample_dict)))"
    by (simp add: sample_dict_def)
  have b: "''ab'' \<in> set (map fst (posdict conflict_dict)) \<and>
           ''ab'' \<in> set (map fst (negdict conflict_dict))"
    by (simp add: conflict_dict_def)
  from a tables_overlap_iff_conflicting [OF sample_init f1, of "''hike''"]
  have "\<not> conflicting float_sample sample_lexicon ''hike''" by blast
  moreover from b tables_overlap_iff_conflicting [OF sample_conflict_init f2, of "''ab''"]
  have "conflicting float_sample conflict_lexicon ''ab''" by blast
  moreover from b
  have "set (map fst (posdict conflict_dict)) \<inter> set (map fst (negdict conflict_dict)) \<noteq> {}"
    by blast
  ultimately show ?thesis using a by blast
qed

theorem tables_not_disjoint_counterexample:
  "MPKO_init float_sample ''/opt/ekonlpy'' (files_with conflict_lexicon) no_tokenizer (Some ()) None =
     Inr conflict_dict \<and>
   ''ab'' \<in> set (map fst (posdict conflict_dict)) \<and>
   ''ab'' \<in> set (map fst (negdict conflict_dict))"
  using sample_conflict_init by (simp add: conflict_dict_def)

text \<open>
  C2, as the code has it: a term that is a key of none of the tables scores 0 in both modes;
  after construction a key of \<^verbatim>\<open>_posdict\<close> scores \<open>+1\<close> in by_count mode, and a key of
  \<^verbatim>\<open>_negdict\<close> that is not a key of \<^verbatim>\<open>_posdict\<close> scores \<open>-1\<close>; a key of \<^verbatim>\<open>_poldict\<close>
  scores its stored value in by_polarity mode.
\<close>

theorem get_score_term_cases:
  "(t \<notin> set (map fst (posdict self)) \<and> t \<notin> set (map fst (negdict self)) \<and>
    t \<notin> set (map fst (poldict self)) \<longrightarrow>
      get_score_term self t True = 0 \<and> get_score_term self t False = 0) \<and>
   (MPKO_init fl installpath files MPTokenizer tokenizer_arg kind = Inr self \<and>
    t \<in> set (map fst (posdict self)) \<longrightarrow> get_score_term self t True = 1) \<and>
   (MPKO_init fl installpath files MPTokenizer tokenizer_arg kind = Inr self \<and>
    t \<in> set (map fst (negdict self)) \<and> t \<notin> set (map fst (posdict self)) \<longrightarrow>
      get_score_term self t True = - 1) \<and>
   (map_of (poldict self) t = Some v \<longrightarrow> get_score_term self t False = v)"
proof -
  have absent: "get_score_term self t True = 0 \<and> get_score_term self t False = 0"
    if "t \<notin> set (map fst (posdict self))" "t \<notin> set (map fst (negdict self))"
       "t \<notin> set (map fst (poldict self))"
    using that by (simp add: get_score_term_def)
  have pos: "get_score_term self t True = 1"
    if built: "MPKO_init fl installpath files MPTokenizer tokenizer_arg kind = Inr self"
      and k: "t \<in> set (map fst (posdict self))"
  proof -
    from key_lookup [OF k] obtain x where x: "map_of (posdict self) t = Some x" ..
    with MPKO_init_values [OF built] have "x = 1" by blast
    with x k show ?thesis by (simp add: get_score_term_def)
  qed
  have neg: "get_score_term self t True = - 1"
    if built: "MPKO_init fl installpath files MPTokenizer tokenizer_arg kind = Inr self"
      and k: "t \<in> set (map fst (negdict self))" and n: "t \<notin> set (map fst (posdict self))"
  proof -
    from key_lookup [OF k] obtain x where x: "map_of (negdict self) t = Some x" ..
    with MPKO_init_values [OF built] have "x = - 1" by blast
    with x k n show ?thesis by (simp add: get_score_term_def)
  qed
  have pol: "get_score_term self t False = v" if "map_of (poldict self) t = Some v"
  proof -
    from that have "t \<in> fst ` set (poldict self)"
      by (metis map_of_eq_None_iff option.distinct(1))
    with that show ?thesis by (simp add: get_score_term_def)
  qed
  from absent pos neg pol show ?thesis by blast
qed

theorem get_score_term_cases_witness:
  "get_score_term sample_dict ''rate'' True = 0 \<and> get_score_term sample_dict ''rate'' False = 0 \<and>
   get_score_term sample_dict ''hike'' True = 1 \<and>
   get_score_term sample_dict ''cut'' True = - 1 \<and>
   get_score_term sample_dict ''cut'' False = - (1 / 4)"
proof -
  have a: "''rate'' \<notin> set (map fst (posdict sample_dict)) \<and>
           ''rate'' \<notin> set (map fst (negdict sample_dict)) \<and>
           ''rate'' \<notin> set (map fst (poldict sample_dict))"
    and b: "''hike'' \<in> set (map fst (posdict sample_dict))"
    and c: "''cut'' \<in> set (map fst (negdict sample_dict)) \<and>
            ''cut'' \<notin> set (map fst (posdict sample_dict))"
    and d: "map_of (poldict sample_dict) ''cut'' = Some (- (1 / 4))"
    by (simp_all add: sample_dict_def)
  from a get_score_term_cases [of "''rate''" sample_dict]
  have "get_score_term sample_dict ''rate'' True = 0 \<and> get_score_term sample_dict ''rate'' False = 0"
    by blast
  moreover from b sample_init get_score_term_cases [of "''hike''" sample_dict]
  have "get_score_term sample_dict ''hike'' True = 1" by blast
  moreover from c sample_init get_score_term_cases [of "''cut''" sample_dict]
  have "get_score_term sample_dict ''cut'' True = - 1" by blast
  moreover from d get_score_term_cases [of "''cut''" sample_dict]
  have "get_score_term sample_dict ''cut'' False = - (1 / 4)" by blast
  ultimately show ?thesis by blast
qed

theorem negative_entry_scores_plus_one_counterexample:
  "MPKO_init float_sample ''/opt/ekonlpy'' (files_with conflict_lexicon) no_tokenizer (Some ()) None =
     Inr conflict_dict \<and>
   ''ab'' \<in> set (map fst (negdict conflict_dict)) \<and>
   get_score_term conflict_dict ''ab'' True = 1 \<and>
   get_score_term conflict_dict ''ab'' True \<noteq> - 1"
  using sample_conflict_init by (simp add: conflict_dict_def get_score_term_def)

lemma sample_positive_only_load:
  "load_lines float_sample new_self [''hike,1,0.5\<newline>''] =
     Inr \<lparr>posdict = [(''hike'', 1)], negdict = [], poldict = [(''hike'', 1 / 2)],
          tokenizer = None\<rparr>"
  by (simp add: line_eval new_self_def)

text \<open>
  C8: a constructed dictionary has a non-empty \<^verbatim>\<open>_posdict\<close> and a non-empty
  \<^verbatim>\<open>_negdict\<close>; when \<^verbatim>\<open>init_dict\<close> leaves one of them empty, construction raises: the
  assertion fails, unless building the default tokenizer has raised before it.
\<close>

theorem construction_checks_tables:
  "(MPKO_init fl installpath files MPTokenizer tokenizer_arg kind = Inr (self :: 'tok base_dict) \<longrightarrow>
      posdict self \<noteq> [] \<and> negdict self \<noteq> []) \<and>
   (init_dict fl installpath files new_self kind = Inr (d :: 'tok base_dict) \<and>
    (posdict d = [] \<or> negdict d = []) \<longrightarrow>
      MPKO_init fl installpath files MPTokenizer tokenizer_arg kind =
        (case tokenizer_arg of
           Some t \<Rightarrow> Inl AssertionError
         | None \<Rightarrow>
             (case MPTokenizer kind (poldict d) of
                Inl e \<Rightarrow> Inl e
              | Inr t \<Rightarrow> Inl AssertionError)))"
proof -
  have "posdict self \<noteq> [] \<and> negdict self \<noteq> []"
    if "MPKO_init fl installpath files MPTokenizer tokenizer_arg kind = Inr self"
    using MPKO_init_Inr [OF that] by blast
  moreover have
    "MPKO_init fl installpath files MPTokenizer tokenizer_arg kind =
       (case tokenizer_arg of
          Some t \<Rightarrow> Inl AssertionError
        | None \<Rightarrow>
            (case MPTokenizer kind (poldict d) of
               Inl e \<Rightarrow> Inl e
             | Inr t \<Rightarrow> Inl AssertionError))"
    if "init_dict fl installpath files new_self kind = Inr d" "posdict d = [] \<or> negdict d = []"
  proof (cases tokenizer_arg)
    case None
    with that show ?thesis
      by (cases "MPTokenizer kind (poldict d)") (auto simp: MPKO_init_def init_tokenizer_def)
  next
    case (Some t)
    with that show ?thesis
      by (auto simp: MPKO_init_def)
  qed
  ultimately show ?thesis by blast
qed

theorem construction_checks_tables_witness:
  "posdict sample_dict \<noteq> [] \<and> negdict sample_dict \<noteq> [] \<and>
   MPKO_init float_sample ''/opt/ekonlpy'' (files_with [''hike,1,0.5\<newline>'']) no_tokenizer
     (Some ()) None = Inl AssertionError \<and>
   MPKO_init float_sample ''/opt/ekonlpy'' (files_with [''hike,1,0.5\<newline>'']) no_tokenizer
     None None = Inl AssertionError"
proof -
  let ?d = "\<lparr>posdict = [(''hike'', 1)], negdict = [], poldict = [(''hike'', 1 / 2)],
             tokenizer = None :: unit option\<rparr>"
  have l: "init_dict float_sample ''/opt/ekonlpy'' (files_with [''hike,1,0.5\<newline>'']) new_self None =
             Inr ?d \<and> (posdict ?d = [] \<or> negdict ?d = [])"
    unfolding sample_init_dict sample_positive_only_load by simp
  from sample_init construction_checks_tables
    [of float_sample "''/opt/ekonlpy''" "files_with sample_lexicon" no_tokenizer "Some ()" None
        sample_dict]
  have "posdict sample_dict \<noteq> [] \<and> negdict sample_dict \<noteq> []" by blast
  moreover from l construction_checks_tables
    [of float_sample "''/opt/ekonlpy''" "files_with [''hike,1,0.5\<newline>'']" no_tokenizer "Some ()" None
        _ ?d]
  have "MPKO_init float_sample ''/opt/ekonlpy'' (files_with [''hike,1,0.5\<newline>'']) no_tokenizer
     (Some ()) None = Inl AssertionError" by simp
  moreover from l construction_checks_tables
    [of float_sample "''/opt/ekonlpy''" "files_with [''hike,1,0.5\<newline>'']" no_tokenizer None None
        _ ?d]
  have "MPKO_init float_sample ''/opt/ekonlpy'' (files_with [''hike,1,0.5\<newline>'']) no_tokenizer
     None None = Inl AssertionError" by (simp add: no_tokenizer_def)
  ultimately show ?thesis by blast
qed

text \<open>
  C7: a record whose word has at most one character changes none of the tables, and after
  \<^verbatim>\<open>init_dict\<close> its word is a key of none of \<^verbatim>\<open>_posdict\<close>, \<^verbatim>\<open>_negdict\<close> and
  \<^verbatim>\<open>_poldict\<close>.
\<close>

theorem short_word_in_no_table:
  assumes "length (line_word line) \<le> 1"
  shows "(load_line fl self line = Inr self' \<longrightarrow> self' = self) \<and>
         (init_dict fl installpath files new_self kind = Inr d \<longrightarrow>
            line_word line \<notin> set (map fst (posdict d)) \<and>
            line_word line \<notin> set (map fst (negdict d)) \<and>
            line_word line \<notin> set (map fst (poldict d)))"
proof -
  from assms have nr: "\<not> retained line" by (simp add: retained_def)
  have one: "self' = self" if "load_line fl self line = Inr self'"
    using load_line_Inr [OF that] nr by blast
  have two: "line_word line \<notin> set (map fst (posdict d)) \<and>
        line_word line \<notin> set (map fst (negdict d)) \<and>
        line_word line \<notin> set (map fst (poldict d))"
    if "init_dict fl installpath files new_self kind = Inr d"
  proof -
    let ?U = "fst ` set (posdict d) \<union> fst ` set (negdict d) \<union> fst ` set (poldict d)"
    from that obtain f where l: "load_lines fl new_self f = Inr d"
      by (auto simp: init_dict_def split: option.splits)
    have inv: "\<forall>k \<in> ?U. k \<noteq> ''word'' \<and> length k > 1"
      by (rule load_lines_keys_retained [OF l]) (simp add: new_self_def)
    have long: "1 < length k" if "k \<in> ?U" for k
      using bspec [OF inv that] by (rule conjunct2)
    have "line_word line \<notin> ?U"
    proof
      assume "line_word line \<in> ?U"
      from long [OF this] assms show False by simp
    qed
    then show ?thesis by simp
  qed
  from one two show ?thesis by blast
qed

theorem short_word_in_no_table_witness:
  "length (line_word ''x,1,0.5'') \<le> 1 \<and>
   load_line float_sample sample_dict ''x,1,0.5'' = Inr sample_dict \<and>
   init_dict float_sample ''/opt/ekonlpy'' (files_with [''x,1,0.5'']) new_self None =
     Inr (new_self :: unit base_dict) \<and>
   ''x'' \<notin> set (map fst (posdict (new_self :: unit base_dict))) \<and>
   ''x'' \<notin> set (map fst (negdict (new_self :: unit base_dict))) \<and>
   ''x'' \<notin> set (map fst (poldict (new_self :: unit base_dict)))"
proof -
  have h: "length (line_word ''x,1,0.5'') \<le> 1" and w: "line_word ''x,1,0.5'' = ''x''"
    by (simp_all add: line_word_def line_fields_def)
  have s: "load_line float_sample sample_dict ''x,1,0.5'' = Inr sample_dict"
    by (simp add: line_eval)
  have i: "init_dict float_sample ''/opt/ekonlpy'' (files_with [''x,1,0.5'']) new_self None =
             Inr (new_self :: unit base_dict)"
    by (simp add: sample_init_dict line_eval)
  note t = short_word_in_no_table [OF h, of float_sample sample_dict sample_dict
    "''/opt/ekonlpy''" "files_with [''x,1,0.5'']" None "new_self :: unit base_dict"]
  from t [THEN conjunct2, rule_format, OF i]
  have r: "''x'' \<notin> set (map fst (posdict (new_self :: unit base_dict))) \<and>
        ''x'' \<notin> set (map fst (negdict (new_self :: unit base_dict))) \<and>
        ''x'' \<notin> set (map fst (poldict (new_self :: unit base_dict)))"
    unfolding w .
  show ?thesis by (rule conjI [OF h conjI [OF s conjI [OF i r]]])
qed

lemma retained_word: "line_word a = line_word b \<Longrightarrow> retained a = retained b"
  by (simp add: retained_def is_header_def)

text \<open>
  C6: after \<^verbatim>\<open>init_dict\<close> the keys of \<^verbatim>\<open>_poldict\<close> are the words of the retained records
  of the file, and for each of them \<^verbatim>\<open>_get_score(word, by_count=False)\<close> returns the value
  that \<^verbatim>\<open>float\<close> parsed from the score field of the last record of that word.
\<close>

theorem poldict_round_trip:
  assumes opened: "files (lexicon_file installpath kind) = Some f"
    and loaded: "init_dict fl installpath files new_self kind = Inr self"
  shows "(w \<in> set (map fst (poldict self)) \<longleftrightarrow> (\<exists>l \<in> set f. line_word l = w \<and> retained l)) \<and>
         (w \<in> set (map fst (poldict self)) \<longrightarrow>
            (\<exists>l. last_record w f = Some l \<and>
                 line_score fl l = Some (get_score_term self w False)))"
proof -
  from loaded opened have l: "load_lines fl new_self f = Inr self"
    by (simp add: init_dict_def)
  have keys: "w \<in> set (map fst (poldict self)) \<longleftrightarrow> (\<exists>l \<in> set f. line_word l = w \<and> retained l)"
    using load_lines_keys_pol [OF l, of w] by (simp add: new_self_def)
  have "\<exists>l. last_record w f = Some l \<and> line_score fl l = Some (get_score_term self w False)"
    if k: "w \<in> set (map fst (poldict self))"
  proof -
    from key_lookup [OF k] obtain v where v: "map_of (poldict self) w = Some v" ..
    with k have score: "get_score_term self w False = v"
      by (simp add: get_score_term_def)
    from k keys obtain r where r: "line_word r = w" "retained r" by blast
    have same: "(\<lambda>l. retained l \<and> line_word l = w) = (\<lambda>l. line_word l = w)"
    proof
      fix l
      show "(retained l \<and> line_word l = w) = (line_word l = w)"
        using r retained_word [of l r] by auto
    qed
    from load_lines_poldict [OF l, of w] v
    have "(case find (\<lambda>l. line_word l = w) (rev f) of
             Some l \<Rightarrow> line_score fl l
           | None \<Rightarrow> None) = Some v"
      by (simp add: same new_self_def cong: option.case_cong)
    then obtain l0 where "find (\<lambda>l. line_word l = w) (rev f) = Some l0" "line_score fl l0 = Some v"
      by (cases "find (\<lambda>l. line_word l = w) (rev f)") simp_all
    with score show ?thesis by (simp add: last_record_def)
  qed
  with keys show ?thesis by blast
qed

theorem poldict_round_trip_witness:
  "''cut'' \<in> set (map fst (poldict (sample_dict\<lparr>tokenizer := None\<rparr>))) \<and>
   last_record ''cut'' sample_lexicon = Some ''cut,-1,-0.25\<newline>'' \<and>
   line_score float_sample ''cut,-1,-0.25\<newline>'' =
     Some (get_score_term (sample_dict\<lparr>tokenizer := None\<rparr>) ''cut'' False)"
proof -
  have f: "files_with sample_lexicon (lexicon_file ''/opt/ekonlpy'' None) = Some sample_lexicon"
    by (simp add: sample_lexicon_file files_with_sample)
  have i: "init_dict float_sample ''/opt/ekonlpy'' (files_with sample_lexicon) new_self None =
             Inr (sample_dict\<lparr>tokenizer := None\<rparr>)"
    unfolding sample_init_dict sample_load ..
  have k: "''cut'' \<in> set (map fst (poldict (sample_dict\<lparr>tokenizer := None\<rparr>)))"
    by (simp add: sample_dict_def)
  have r: "last_record ''cut'' sample_lexicon = Some ''cut,-1,-0.25\<newline>''"
    by (simp add: last_record_def sample_lexicon_def line_word_def line_fields_def)
  from poldict_round_trip [OF f i, of "''cut''", THEN conjunct2, rule_format, OF k]
  obtain l where "last_record ''cut'' sample_lexicon = Some l"
    and s: "line_score float_sample l =
              Some (get_score_term (sample_dict\<lparr>tokenizer := None\<rparr>) ''cut'' False)"
    by blast
  with r have "l = ''cut,-1,-0.25\<newline>''" by simp
  with s have "line_score float_sample ''cut,-1,-0.25\<newline>'' =
     Some (get_score_term (sample_dict\<lparr>tokenizer := None\<rparr>) ''cut'' False)"
    by simp
  then show ?thesis by (rule conjI [OF k conjI [OF r]])
qed

section \<open>Errors of the load\<close>

lemma load_line_header: "is_header line \<Longrightarrow> load_line fl self line = Inr self"
  by (simp add: load_line_unfold)

lemma load_line_malformed:
  "\<not> is_header line \<Longrightarrow> malformed fl line \<Longrightarrow> load_line fl self line = Inl ValueError"
  by (auto simp: load_line_unfold malformed_def split: option.splits)

lemma load_line_ValueError:
  "load_line fl self line = Inl ValueError \<Longrightarrow> \<not> is_header line \<and> malformed fl line"
  by (auto simp: load_line_unfold malformed_def split: option.splits if_splits)

lemma load_lines_ValueError:
  "load_lines fl self f = Inl ValueError \<Longrightarrow> \<exists>line \<in> set f. \<not> is_header line \<and> malformed fl line"
proof (induction f arbitrary: self)
  case Nil
  then show ?case by simp
next
  case (Cons line f)
  show ?case
  proof (cases "load_line fl self line")
    case (Inl e)
    with Cons.prems have "load_line fl self line = Inl ValueError" by simp
    from load_line_ValueError [OF this] show ?thesis by simp
  next
    case (Inr self1)
    with Cons.prems have "load_lines fl self1 f = Inl ValueError" by simp
    from Cons.IH [OF this] show ?thesis by auto
  qed
qed

text \<open>
  C3, as the code has it: a missing lexicon file aborts the load with
  \<^verbatim>\<open>FileNotFoundError\<close>; a malformed numeric field in a line that is not a header aborts
  the load with \<^verbatim>\<open>ValueError\<close> when the lines before it have loaded, whether or not the
  word of the line passes the length filter; a header line is skipped whatever its other
  fields are; and \<^verbatim>\<open>ValueError\<close> comes from such a line only.
\<close>

theorem init_dict_errors:
  "(files (lexicon_file installpath kind) = None \<longrightarrow>
      init_dict fl installpath files self kind = Inl FileNotFoundError) \<and>
   (files (lexicon_file installpath kind) = Some (pre @ line # post) \<and>
    load_lines fl self pre = Inr self1 \<and> \<not> is_header line \<and> malformed fl line \<longrightarrow>
      init_dict fl installpath files self kind = Inl ValueError) \<and>
   (is_header line \<longrightarrow>
      load_lines fl self (pre @ line # post) = load_lines fl self (pre @ post)) \<and>
   (files (lexicon_file installpath kind) = Some f \<and>
    init_dict fl installpath files self kind = Inl ValueError \<longrightarrow>
      (\<exists>l \<in> set f. \<not> is_header l \<and> malformed fl l))"
proof -
  have missing: "init_dict fl installpath files self kind = Inl FileNotFoundError"
    if "files (lexicon_file installpath kind) = None"
    using that by (simp add: init_dict_def)
  have bad: "init_dict fl installpath files self kind = Inl ValueError"
    if "files (lexicon_file installpath kind) = Some (pre @ line # post)"
      "load_lines fl self pre = Inr self1" "\<not> is_header line" "malformed fl line"
    using that by (simp add: init_dict_def load_lines_append load_line_malformed)
  have header: "load_lines fl self (pre @ line # post) = load_lines fl self (pre @ post)"
    if "is_header line"
    using that by (simp add: load_lines_append load_line_header split: sum.splits)
  have only: "\<exists>l \<in> set f. \<not> is_header l \<and> malformed fl l"
    if "files (lexicon_file installpath kind) = Some f"
      "init_dict fl installpath files self kind = Inl ValueError"
    using that load_lines_ValueError [of fl self f] by (simp add: init_dict_def)
  from missing bad header only show ?thesis by blast
qed

theorem short_word_parse_error_counterexample:
  "length (line_word ''x,abc,0.5'') \<le> 1 \<and> \<not> retained ''x,abc,0.5'' \<and>
   init_dict float_sample ''/opt/ekonlpy'' (files_with [''x,abc,0.5'']) (new_self :: unit base_dict)
     None = Inl ValueError"
  by (simp add: sample_init_dict line_eval retained_def line_word_def line_fields_def)


theorem init_dict_errors_witness:
  "init_dict float_sample ''/opt/ekonlpy'' Map.empty (new_self :: unit base_dict) None =
     Inl FileNotFoundError \<and>
   init_dict float_sample ''/opt/ekonlpy''
     (files_with ([''word,polarity,score'', ''hike,1,0.5''] @ ''x,abc,0.5'' # [''cut,-1,-0.25'']))
     (new_self :: unit base_dict) None = Inl ValueError \<and>
   load_lines float_sample (new_self :: unit base_dict) ([] @ ''word,abc'' # [''hike,1,0.5'']) =
     load_lines float_sample new_self ([] @ [''hike,1,0.5'']) \<and>
   (\<exists>l \<in> set ([''word,polarity,score'', ''hike,1,0.5''] @ ''x,abc,0.5'' # [''cut,-1,-0.25'']).
      \<not> is_header l \<and> malformed float_sample l)"
proof -
  let ?pre = "[''word,polarity,score'', ''hike,1,0.5'']"
  let ?post = "[''cut,-1,-0.25'']"
  let ?files = "files_with (?pre @ ''x,abc,0.5'' # ?post)"
  let ?self1 = "\<lparr>posdict = [(''hike'', 1)], negdict = [], poldict = [(''hike'', 1 / 2)],
                 tokenizer = None :: unit option\<rparr>"
  have none: "Map.empty (lexicon_file ''/opt/ekonlpy'' None) = (None :: string list option)"
    by simp
  have opened: "?files (lexicon_file ''/opt/ekonlpy'' None) = Some (?pre @ ''x,abc,0.5'' # ?post)"
    by (simp only: sample_lexicon_file files_with_sample)
  have pre: "load_lines float_sample new_self ?pre = Inr ?self1"
    by (simp add: line_eval new_self_def)
  have nh: "\<not> is_header ''x,abc,0.5''"
    by (simp add: is_header_def line_word_def line_fields_def)
  have mal: "malformed float_sample ''x,abc,0.5''"
    by (simp add: malformed_def line_class_def line_fields_def strip_def is_space_def
        float_sample_def)
  have hd: "is_header ''word,abc''"
    by (simp add: is_header_def line_word_def line_fields_def)
  have a: "init_dict float_sample ''/opt/ekonlpy'' Map.empty (new_self :: unit base_dict) None =
             Inl FileNotFoundError"
    using init_dict_errors [where files = Map.empty and installpath = "''/opt/ekonlpy''"
        and kind = None and fl = float_sample and self = "new_self :: unit base_dict",
        THEN conjunct1, rule_format, OF none] .
  have b: "init_dict float_sample ''/opt/ekonlpy'' ?files (new_self :: unit base_dict) None =
             Inl ValueError"
    using init_dict_errors [where files = ?files and installpath = "''/opt/ekonlpy''"
        and kind = None and fl = float_sample and self = "new_self :: unit base_dict"
        and pre = ?pre and line = "''x,abc,0.5''" and post = ?post and ?self1.0 = ?self1,
        THEN conjunct2, THEN conjunct1, rule_format, OF conjI [OF opened conjI [OF pre conjI [OF nh mal]]]] .
  have c: "load_lines float_sample (new_self :: unit base_dict) ([] @ ''word,abc'' # [''hike,1,0.5'']) =
             load_lines float_sample new_self ([] @ [''hike,1,0.5''])"
    using init_dict_errors [where fl = float_sample and self = "new_self :: unit base_dict"
        and pre = "[]" and line = "''word,abc''" and post = "[''hike,1,0.5'']",
        THEN conjunct2, THEN conjunct2, THEN conjunct1, rule_format, OF hd] .
  have d: "\<exists>l \<in> set (?pre @ ''x,abc,0.5'' # ?post). \<not> is_header l \<and> malformed float_sample l"
    using init_dict_errors [where files = ?files and installpath = "''/opt/ekonlpy''"
        and kind = None and fl = float_sample and self = "new_self :: unit base_dict"
        and f = "?pre @ ''x,abc,0.5'' # ?post",
        THEN conjunct2, THEN conjunct2, THEN conjunct2, rule_format, OF conjI [OF opened b]] .
  show ?thesis by (rule conjI [OF a conjI [OF b conjI [OF c d]]])
qed

section \<open>Scoring a list of terms\<close>

lemma sum_list_filter_pos:
  "sum_list (filter (\<lambda>s. 0 < s) xs) = sum_list (map (\<lambda>s. if 0 < s then s else 0) xs)"
  for xs :: "real list"
  by (induction xs) simp_all

lemma sum_list_filter_neg:
  "sum_list (filter (\<lambda>s. s < 0) xs) = sum_list (map (\<lambda>s. if s < 0 then s else 0) xs)"
  for xs :: "real list"
  by (induction xs) simp_all

lemma length_filter_signs:
  "length (filter (\<lambda>s. 0 < s) xs) + length (filter (\<lambda>s. s < 0) xs) =
     length (filter (\<lambda>s. s \<noteq> 0) xs)"
  for xs :: "real list"
  by (induction xs) auto

lemma sum_list_split_abs:
  "sum_list (map (\<lambda>s. if 0 < s then s else 0) xs) - sum_list (map (\<lambda>s. if s < 0 then s else 0) xs) =
     sum_list (map abs xs)"
  for xs :: "real list"
  by (induction xs) auto

lemma get_score_items:
  "items terms = Some ts \<Longrightarrow> get_score self terms by_count = Inr (spec_score self ts by_count)"
  apply (simp only: get_score_def spec_score_def Let_def option.simps sum_list_filter_pos
      sum_list_filter_neg length_filter_signs)
  apply (simp add: EPSILON_def)
  done

text \<open>
  C1: for a list and for a tuple of terms, in either mode, \<^verbatim>\<open>get_score\<close> returns the four
  values as the specification words them; in by_count mode the denominator
  Positive - Negative is the sum of the absolute values of the per-token scores.
\<close>

theorem get_score_as_specified:
  "get_score self (PyList ts) by_count = Inr (spec_score self ts by_count) \<and>
   get_score self (PyTuple ts) by_count = Inr (spec_score self ts by_count) \<and>
   Positive (spec_score self ts True) - Negative (spec_score self ts True) =
     sum_list (map (\<lambda>t. \<bar>get_score_term self t True\<bar>) ts)"
proof -
  have "Positive (spec_score self ts True) - Negative (spec_score self ts True) =
          sum_list (map abs (map (\<lambda>t. get_score_term self t True) ts))"
    by (simp add: spec_score_def Let_def sum_list_split_abs del: map_map)
  then show ?thesis by (simp add: get_score_items comp_def)
qed

theorem get_score_as_specified_witness:
  "get_score sample_dict (PyList [''hike'', ''neutral_word'', ''cut'']) True =
     Inr \<lparr>Positive = 1, Negative = - 1, Polarity = 0, Subjectivity = 2000000 / 3000001\<rparr> \<and>
   get_score sample_dict (PyTuple [''hike'', ''neutral_word'', ''cut'']) False =
     Inr \<lparr>Positive = 1 / 2, Negative = - (1 / 4), Polarity = 250000 / 3000001,
          Subjectivity = 2000000 / 3000001\<rparr>"
proof -
  have a: "spec_score sample_dict [''hike'', ''neutral_word'', ''cut''] True =
             \<lparr>Positive = 1, Negative = - 1, Polarity = 0, Subjectivity = 2000000 / 3000001\<rparr>"
    by (simp add: spec_score_def get_score_term_def sample_dict_def)
  have b: "spec_score sample_dict [''hike'', ''neutral_word'', ''cut''] False =
             \<lparr>Positive = 1 / 2, Negative = - (1 / 4), Polarity = 250000 / 3000001,
              Subjectivity = 2000000 / 3000001\<rparr>"
    by (simp add: spec_score_def get_score_term_def sample_dict_def)
  note t1 = get_score_as_specified
    [of sample_dict "[''hike'', ''neutral_word'', ''cut'']" True, THEN conjunct1, unfolded a]
  note t2 = get_score_as_specified
    [of sample_dict "[''hike'', ''neutral_word'', ''cut'']" False, THEN conjunct2,
     THEN conjunct1, unfolded b]
  show ?thesis by (rule conjI [OF t1 t2])
qed

lemma sum_list_filter_pos_nonneg: "0 \<le> sum_list (filter (\<lambda>s. 0 < s) xs)"
  for xs :: "real list"
  by (rule sum_list_nonneg) simp

lemma sum_list_filter_neg_nonpos: "sum_list (filter (\<lambda>s. s < 0) xs) \<le> 0"
  for xs :: "real list"
  by (rule sum_list_nonpos) simp

lemma length_filter_signs_le:
  "length (filter (\<lambda>s. 0 < s) xs) + length (filter (\<lambda>s. s < 0) xs) \<le> length xs"
  for xs :: "real list"
  by (induction xs) auto

lemma sum_list_le_length: "\<forall>x \<in> set ys. x \<le> 1 \<Longrightarrow> sum_list ys \<le> real (length ys)"
  for ys :: "real list"
  by (induction ys) auto

lemma sum_list_ge_length: "\<forall>x \<in> set ys. - 1 \<le> x \<Longrightarrow> - real (length ys) \<le> sum_list ys"
  for ys :: "real list"
  by (induction ys) auto

lemma ratio_bounds:
  fixes a b e :: real
  assumes "\<bar>a\<bar> \<le> b" and "0 < e"
  shows "- 1 \<le> a / (b + e) \<and> a / (b + e) \<le> 1"
proof -
  from assms have pos: "0 < b + e" by linarith
  from assms have "- (b + e) \<le> a" "a \<le> b + e" by linarith+
  with pos show ?thesis by (simp add: pos_le_divide_eq pos_divide_le_eq)
qed

lemma steep_load:
  "load_lines float_sample new_self steep_lexicon = Inr (steep_dict\<lparr>tokenizer := None\<rparr>)"
  by (simp add: line_eval new_self_def steep_lexicon_def steep_dict_def)

lemma steep_init:
  "MPKO_init float_sample ''/opt/ekonlpy'' (files_with steep_lexicon) no_tokenizer (Some ()) None =
   Inr steep_dict"
  unfolding MPKO_init_def sample_init_dict steep_load
  by (simp add: steep_dict_def)

text \<open>
  C5, as the code has it: Subjectivity lies in \<open>[0, 1]\<close> for every input; Polarity lies in
  \<open>[-1, 1]\<close> for every input in by_count mode, and in by_polarity mode for every input
  whose per-token scores all lie in \<open>[-1, 1]\<close>.
\<close>

theorem score_bounds:
  assumes "items terms = Some ts"
  shows "\<exists>r. get_score self terms by_count = Inr r \<and>
           0 \<le> Subjectivity r \<and> Subjectivity r \<le> 1 \<and>
           (by_count \<or> (\<forall>t \<in> set ts. \<bar>get_score_term self t False\<bar> \<le> 1) \<longrightarrow>
              - 1 \<le> Polarity r \<and> Polarity r \<le> 1)"
proof -
  define xs where "xs = map (\<lambda>t. get_score_term self t by_count) ts"
  define P where "P = sum_list (filter (\<lambda>s. 0 < s) xs)"
  define N where "N = sum_list (filter (\<lambda>s. s < 0) xs)"
  define k where "k = length (filter (\<lambda>s. 0 < s) xs) + length (filter (\<lambda>s. s < 0) xs)"
  define r where
    "r = \<lparr>Positive = P, Negative = N,
          Polarity = (P + N) / ((if by_count then P - N else real (length xs)) + 1 / 1000000),
          Subjectivity = real k / (real (length xs) + 1 / 1000000)\<rparr>"
  have res: "get_score self terms by_count = Inr r"
    using assms
    by (simp add: get_score_def Let_def EPSILON_def r_def P_def N_def k_def xs_def
        del: filter_map)
  have P0: "0 \<le> P" and N0: "N \<le> 0"
    by (simp_all add: P_def N_def sum_list_filter_pos_nonneg sum_list_filter_neg_nonpos)
  have kn: "real k \<le> real (length xs)"
    unfolding k_def using length_filter_signs_le [of xs] by linarith
  have sub: "0 \<le> Subjectivity r \<and> Subjectivity r \<le> 1"
  proof -
    have "\<bar>real k\<bar> \<le> real (length xs)" using kn by simp
    from ratio_bounds [OF this, of "1 / 1000000"] show ?thesis
      by (simp add: r_def)
  qed
  have pol: "- 1 \<le> Polarity r \<and> Polarity r \<le> 1"
    if h: "by_count \<or> (\<forall>t \<in> set ts. \<bar>get_score_term self t False\<bar> \<le> 1)"
  proof (cases by_count)
    case True
    from P0 N0 have "\<bar>P + N\<bar> \<le> P - N" by linarith
    from ratio_bounds [OF this, of "1 / 1000000"] True show ?thesis
      by (simp add: r_def)
  next
    case False
    with h have small: "\<forall>x \<in> set xs. \<bar>x\<bar> \<le> 1" by (auto simp: xs_def)
    have "P \<le> real (length (filter (\<lambda>s. 0 < s) xs))"
      unfolding P_def using small by (intro sum_list_le_length) auto
    moreover have "- real (length (filter (\<lambda>s. s < 0) xs)) \<le> N"
      unfolding N_def using small by (intro sum_list_ge_length) auto
    ultimately have "\<bar>P + N\<bar> \<le> real (length xs)"
      using P0 N0 kn unfolding k_def by linarith
    from ratio_bounds [OF this, of "1 / 1000000"] False show ?thesis
      by (simp add: r_def)
  qed
  from res sub pol show ?thesis by blast
qed

theorem polarity_above_one_counterexample:
  "MPKO_init float_sample ''/opt/ekonlpy'' (files_with steep_lexicon) no_tokenizer (Some ()) None =
     Inr steep_dict \<and>
   get_score_term steep_dict ''up'' False = 5 \<and>
   get_score steep_dict (PyList [''up'']) False =
     Inr \<lparr>Positive = 5, Negative = 0, Polarity = 5000000 / 1000001,
          Subjectivity = 1000000 / 1000001\<rparr> \<and>
   (1 :: real) < 5000000 / 1000001"
  using steep_init
  by (simp add: get_score_def get_score_term_def steep_dict_def EPSILON_def)


theorem score_bounds_witness:
  "get_score sample_dict (PyList [''hike'', ''neutral_word'', ''cut'']) False =
     Inr \<lparr>Positive = 1 / 2, Negative = - (1 / 4), Polarity = 250000 / 3000001,
          Subjectivity = 2000000 / 3000001\<rparr> \<and>
   - 1 \<le> Polarity \<lparr>Positive = 1 / 2, Negative = - (1 / 4), Polarity = 250000 / 3000001,
          Subjectivity = 2000000 / 3000001\<rparr> \<and>
   Polarity \<lparr>Positive = 1 / 2, Negative = - (1 / 4), Polarity = 250000 / 3000001,
          Subjectivity = 2000000 / 3000001\<rparr> \<le> 1 \<and>
   0 \<le> Subjectivity \<lparr>Positive = 1 / 2, Negative = - (1 / 4), Polarity = 250000 / 3000001,
          Subjectivity = 2000000 / 3000001\<rparr> \<and>
   Subjectivity \<lparr>Positive = 1 / 2, Negative = - (1 / 4), Polarity = 250000 / 3000001,
          Subjectivity = 2000000 / 3000001\<rparr> \<le> 1"
proof -
  let ?L = "[''hike'', ''neutral_word'', ''cut'']"
  let ?R = "\<lparr>Positive = 1 / 2, Negative = - (1 / 4), Polarity = 250000 / 3000001,
          Subjectivity = 2000000 / 3000001 :: real\<rparr>"
  have i: "items (PyList ?L) = Some ?L" by simp
  have small: "False \<or> (\<forall>t \<in> set ?L. \<bar>get_score_term sample_dict t False\<bar> \<le> 1)"
    by (simp add: get_score_term_def sample_dict_def)
  have ev: "get_score sample_dict (PyList ?L) False = Inr ?R"
    by (simp add: get_score_def get_score_term_def sample_dict_def EPSILON_def)
  from score_bounds [OF i, of sample_dict False] obtain r where
    r: "get_score sample_dict (PyList ?L) False = Inr r"
    and s: "0 \<le> Subjectivity r" "Subjectivity r \<le> 1"
    and p: "False \<or> (\<forall>t \<in> set ?L. \<bar>get_score_term sample_dict t False\<bar> \<le> 1) \<longrightarrow>
              - 1 \<le> Polarity r \<and> Polarity r \<le> 1"
    by blast
  from r ev have eq: "r = ?R" by simp
  from p small have "- 1 \<le> Polarity r" "Polarity r \<le> 1" by blast+
  with s show ?thesis unfolding eq using ev by (intro conjI)
qed

end
